theory Spec2Isabelle
  imports Main "HOL-Library.Sublist"
begin

section \<open>Meme Factory: the component state of \<open>src/components/Main.jsx\<close>\<close>

subsection \<open>JavaScript values and objects\<close>

text \<open>
  The values the handlers of \<open>App\<close> store and compare. Numbers are modelled as
  integers: the identifiers are the literals \<open>1\<close>, \<open>2\<close> and the millisecond count
  \<open>Date.now()\<close>, the size is the result of \<open>parseInt\<close>, the positions are pixel
  offsets, and no handler does arithmetic on any of them. On these values the strict
  equality \<open>===\<close> of the source is equality.
\<close>

datatype jsval = JUndefined | JNull | JNum int | JStr string

text \<open>
  A text field is a plain JavaScript object: a finite map from property names to values.
  A spread with a computed key, \<open>{ ...field, [key]: value }\<close>, copies every property
  and sets \<open>key\<close>, whether or not the object had it. Reading a property the object
  lacks gives \<open>undefined\<close>.
\<close>

type_synonym field = "string \<rightharpoonup> jsval"

definition getProp :: "field \<Rightarrow> string \<Rightarrow> jsval" where
  "getProp f k = (case f k of None \<Rightarrow> JUndefined | Some v \<Rightarrow> v)"

definition mkField :: "jsval \<Rightarrow> string \<Rightarrow> string \<Rightarrow> string \<Rightarrow> int \<Rightarrow> int \<Rightarrow> int \<Rightarrow> field" where
  "mkField i t fnt c sz px py =
     [''id'' \<mapsto> i, ''text'' \<mapsto> JStr t, ''font'' \<mapsto> JStr fnt, ''color'' \<mapsto> JStr c,
      ''size'' \<mapsto> JNum sz, ''x'' \<mapsto> JNum px, ''y'' \<mapsto> JNum py]"

text \<open>The attribute names a field is created with, other than its identifier.\<close>

definition knownAttributes :: "string list" where
  "knownAttributes = [''text'', ''font'', ''color'', ''size'', ''x'', ''y'']"

definition digitChar :: "nat \<Rightarrow> char" where
  "digitChar d = ''0123456789'' ! d"

fun showNat :: "nat \<Rightarrow> string" where
  "showNat n = (if n < 10 then [digitChar n] else showNat (n div 10) @ [digitChar (n mod 10)])"

declare showNat.simps [simp del]

text \<open>
  The decimal string JavaScript gives for an integral number, in a template literal and
  in the string React makes of a key.
\<close>

definition numberToString :: "int \<Rightarrow> string" where
  "numberToString i = (if i < 0 then CHR ''-'' # showNat (nat (- i)) else showNat (nat i))"

subsection \<open>The state of \<open>App\<close>\<close>

record template =
  tid :: string
  tname :: string
  turl :: string

record meme =
  imageUrl :: jsval

text \<open>
  A \<open>Draggable\<close> instance as the component sees it: the index in the selector
  \<open>.draggable-${index}\<close> it was created for, the \<open>field.id\<close> its two callbacks
  closed over, and whether \<open>kill()\<close> has been called on it.
\<close>

record draggable =
  selectorIndex :: nat
  capturedId :: jsval
  killed :: bool

text \<open>
  The state of one mounted \<open>App\<close> and the part of the page it touches.
  \<open>fields'\<close> is the state variable \<open>fields\<close>. \<open>readers\<close> holds the files whose
  \<open>FileReader\<close> has been started by \<open>handleImageUpload\<close> and whose \<open>loadend\<close>
  event has not fired yet. \<open>windowGsap\<close> is the truth of \<open>window.gsap\<close> and
  \<open>window.Draggable\<close>, which the two GSAP scripts define when they run.

  \<open>draggables\<close> is the store of every \<open>Draggable\<close> instance created so far, an
  instance being named by its position in it, and \<open>draggableInstancesRef\<close> is the
  array \<open>draggableInstancesRef.current\<close>: each entry such a name, or \<open>None\<close> for
  \<open>undefined\<close>. \<open>effectDeps\<close> and \<open>effectCleanup\<close> are what React keeps for the
  drag effect: the dependency values of its last run (none before the first) and whether
  that run returned a cleanup function.

  \<open>domFields\<close> lists the elements React holds for the rendered fields, in order:
  for each the key React made of \<open>key={field.id}\<close> (none for \<open>undefined\<close>) and the
  index in its class \<open>draggable-${index}\<close>. \<open>domStale\<close> lists, by that index, the
  field elements that are still in the document and that React no longer holds.
  \<open>crashed\<close> says that an error thrown in the effect has made React unmount the
  \<open>App\<close>.
\<close>

record app =
  allMemes :: "template list"
  meme :: meme
  fields' :: "field list"
  activeFieldId :: jsval
  activePanel :: string
  librariesLoaded :: bool
  readers :: "string list"
  windowGsap :: bool
  draggables :: "draggable list"
  draggableInstancesRef :: "nat option list"
  effectDeps :: "(nat \<times> jsval \<times> bool) option"
  effectCleanup :: bool
  domFields :: "(string option \<times> nat) list"
  domStale :: "nat list"
  crashed :: bool

definition INITIAL_IMAGE_URL :: string where
  "INITIAL_IMAGE_URL = ''https://i.imgflip.com/1bij.jpg''"

definition initialFields :: "field list" where
  "initialFields =
     [mkField (JNum 1) ''One does not simply'' ''Anton'' ''#ffffff'' 40 100 50,
      mkField (JNum 2) ''Fix a bug on Friday'' ''Anton'' ''#ffffff'' 40 100 300]"

definition initialApp :: app where
  "initialApp = \<lparr> allMemes = [], meme = \<lparr> imageUrl = JStr INITIAL_IMAGE_URL \<rparr>,
     fields' = initialFields, activeFieldId = JNull, activePanel = ''templates'',
     librariesLoaded = False, readers = [], windowGsap = False, draggables = [],
     draggableInstancesRef = [], effectDeps = None, effectCleanup = False,
     domFields = [], domStale = [], crashed = False \<rparr>"

definition fieldIds :: "app \<Rightarrow> jsval list" where
  "fieldIds s = map (\<lambda>f. getProp f ''id'') (fields' s)"

subsection \<open>Event handlers\<close>

text \<open>
  Each handler is a function from the state of the render it was created in to the state
  after its \<open>set...\<close> calls. What a handler reads from outside the component
  (\<open>Date.now()\<close>, \<open>Math.random()\<close>, the chosen file) is a parameter.
\<close>

definition handleSelectMeme :: "jsval \<Rightarrow> app \<Rightarrow> app" where
  "handleSelectMeme u s = s\<lparr> meme := \<lparr> imageUrl = u \<rparr>, activeFieldId := JNull \<rparr>"

text \<open>
  \<open>i\<close> is \<open>Math.floor(Math.random() * allMemes.length)\<close>. \<open>Math.random()\<close> is
  below one, so \<open>i\<close> is below the length of the non-empty list.
\<close>

definition handleRandomMeme :: "nat \<Rightarrow> app \<Rightarrow> app" where
  "handleRandomMeme i s =
     (if allMemes s = [] then s
      else handleSelectMeme (JStr (turl (allMemes s ! i))) s)"

definition newField :: "int \<Rightarrow> field" where
  "newField now = mkField (JNum now) ''New Text'' ''Anton'' ''#ffffff'' 40 150 150"

definition handleAddField :: "int \<Rightarrow> app \<Rightarrow> app" where
  "handleAddField now s =
     s\<lparr> fields' := fields' s @ [newField now], activeFieldId := getProp (newField now) ''id'' \<rparr>"

definition handleFieldChange :: "jsval \<Rightarrow> string \<Rightarrow> jsval \<Rightarrow> app \<Rightarrow> app" where
  "handleFieldChange i k v s =
     s\<lparr> fields' := map (\<lambda>f. if getProp f ''id'' = i then f(k \<mapsto> v) else f) (fields' s) \<rparr>"

definition handleDeleteField :: "jsval \<Rightarrow> app \<Rightarrow> app" where
  "handleDeleteField i s =
     s\<lparr> fields' := filter (\<lambda>f. getProp f ''id'' \<noteq> i) (fields' s),
        activeFieldId := (if activeFieldId s = i then JNull else activeFieldId s) \<rparr>"

text \<open>
  \<open>file\<close> is \<open>e.target.files?.[0]\<close>: \<open>None\<close> when no file was chosen. The reader is
  started and the selection cleared; the background is set later, by \<open>readerOnLoadEnd\<close>.
\<close>

definition handleImageUpload :: "string option \<Rightarrow> app \<Rightarrow> app" where
  "handleImageUpload file s =
     (case file of
        None \<Rightarrow> s
      | Some f \<Rightarrow> s\<lparr> readers := readers s @ [f], activeFieldId := JNull \<rparr>)"

text \<open>
  The \<open>onloadend\<close> callback of a started reader. \<open>r\<close> is \<open>reader.result\<close>: the data
  URI, or \<open>null\<close> when the read failed.
\<close>

definition readerOnLoadEnd :: "nat \<Rightarrow> jsval \<Rightarrow> app \<Rightarrow> app" where
  "readerOnLoadEnd n r s =
     (if n < length (readers s)
      then s\<lparr> readers := take n (readers s) @ drop (Suc n) (readers s),
              meme := \<lparr> imageUrl = r \<rparr> \<rparr>
      else s)"

text \<open>
  \<open>onBackground\<close> is the test \<open>e.target === imageRef.current || e.target === memeRef.current\<close>.
\<close>

definition handleCanvasClick :: "bool \<Rightarrow> app \<Rightarrow> app" where
  "handleCanvasClick onBackground s = (if onBackground then s\<lparr> activeFieldId := JNull \<rparr> else s)"

text \<open>
  The two callbacks given to \<open>Draggable.create\<close> for a field. \<open>fid\<close> is the
  \<open>field.id\<close> of the closure; \<open>px\<close> and \<open>py\<close> are \<open>this.x\<close> and \<open>this.y\<close> of
  the instance at release. \<open>onDragEnd\<close> passes a function to \<open>setFields\<close>, so it maps
  over the fields current at release.
\<close>

definition onClick :: "jsval \<Rightarrow> app \<Rightarrow> app" where
  "onClick fid s = s\<lparr> activeFieldId := fid \<rparr>"

definition onDragEnd :: "jsval \<Rightarrow> jsval \<Rightarrow> jsval \<Rightarrow> app \<Rightarrow> app" where
  "onDragEnd fid px py s =
     s\<lparr> fields' := map (\<lambda>item. if getProp item ''id'' = fid
                               then item(''x'' \<mapsto> px, ''y'' \<mapsto> py) else item) (fields' s) \<rparr>"

subsection \<open>Rendering the fields\<close>

text \<open>
  The key React keeps for a child with \<open>key={v}\<close>: the string \<open>'' + v\<close>, and none
  when \<open>v\<close> is \<open>undefined\<close>.
\<close>

definition reactKey :: "jsval \<Rightarrow> string option" where
  "reactKey v =
     (case v of
        JUndefined \<Rightarrow> None
      | JNull \<Rightarrow> Some ''null''
      | JNum n \<Rightarrow> Some (numberToString n)
      | JStr t \<Rightarrow> Some t)"

definition fieldKeys :: "app \<Rightarrow> string option list" where
  "fieldKeys s = map (\<lambda>f. reactKey (getProp f ''id'')) (fields' s)"

text \<open>
  React's reconciliation of the rendered array \<open>fields.map(...)\<close> against the elements
  it holds, as far as it decides which elements stay in the document. It first walks
  both lists together while the keys agree.
\<close>

fun dropMatched ::
  "(string option \<times> nat) list \<Rightarrow> string option list
     \<Rightarrow> (string option \<times> nat) list \<times> string option list" where
  "dropMatched ((k, c) # old) (k' # new) =
     (if k = k' then dropMatched old new else ((k, c) # old, k' # new))"
| "dropMatched old new = (old, new)"

text \<open>
  When old and new children are both left, React puts the old ones that are left into a
  map, under the key, or under the index for a child without key. An entry put later
  under the same key replaces the earlier one.
\<close>

definition mapKey :: "string option \<times> nat \<Rightarrow> string + nat" where
  "mapKey f = (case fst f of Some k \<Rightarrow> Inl k | None \<Rightarrow> Inr (snd f))"

text \<open>
  The old children whose entry in the map was replaced, by the index in their class.
  React reuses or deletes the children that are in the map; these are not in it, so
  their elements stay in the document as they were last rendered.
\<close>

fun shadowed :: "(string option \<times> nat) list \<Rightarrow> nat list" where
  "shadowed [] = []"
| "shadowed (f # rest) =
     (if mapKey f \<in> set (map mapKey rest) then snd f # shadowed rest else shadowed rest)"

text \<open>
  The elements a render leaves behind. When the new children run out first, React
  deletes every old child that is left, and when the old ones run out first it creates
  the rest; the map is used in neither case.
\<close>

definition orphans :: "(string option \<times> nat) list \<Rightarrow> string option list \<Rightarrow> nat list" where
  "orphans old new =
     (case dropMatched old new of
        (old', new') \<Rightarrow> if old' = [] \<or> new' = [] then [] else shadowed old')"

text \<open>
  The document after a render. While the libraries are not loaded the component renders
  the loading screen, and after a crash nothing: no field element exists. Otherwise there
  is one element per field, in order, of class \<open>draggable-${index}\<close>, next to the
  elements left behind by this render and by earlier ones.
\<close>

definition render :: "app \<Rightarrow> app" where
  "render s =
     (if crashed s \<or> \<not> librariesLoaded s then s\<lparr> domFields := [], domStale := [] \<rparr>
      else s\<lparr> domFields := zip (fieldKeys s) [0..<length (fields' s)],
              domStale := domStale s @ orphans (domFields s) (fieldKeys s) \<rparr>)"

text \<open>The number of elements the selector \<open>.draggable-${index}\<close> matches.\<close>

definition matching :: "app \<Rightarrow> nat \<Rightarrow> nat" where
  "matching s index =
     length (filter (\<lambda>f. snd f = index) (domFields s))
       + length (filter (\<lambda>c. c = index) (domStale s))"

subsection \<open>The drag effect and its scheduling\<close>

text \<open>
  \<open>draggableInstancesRef.current.forEach(d => d.kill())\<close>: every instance named in the
  array is marked killed, in order. At an entry that is \<open>undefined\<close> the call
  \<open>d.kill()\<close> throws, and the loop stops there: the second component says whether
  the loop came to its end.
\<close>

fun killAll :: "nat option list \<Rightarrow> draggable list \<Rightarrow> draggable list \<times> bool" where
  "killAll [] ds = (ds, True)"
| "killAll (None # hs) ds = (ds, False)"
| "killAll (Some h # hs) ds = killAll hs (ds[h := (ds ! h)\<lparr> killed := True \<rparr>])"

text \<open>
  \<open>fields.forEach((field, index) => ...)\<close>: for each field in order,
  \<open>Draggable.create\<close> makes one instance for every element the selector
  \<open>.draggable-${index}\<close> matches, \<open>m index\<close> of them, each with the callbacks that
  close over this field. Only \<open>newDraggable[0]\<close> is pushed on the array; it is
  \<open>undefined\<close> when the selector matches nothing.
\<close>

fun createAll ::
  "(nat \<Rightarrow> nat) \<Rightarrow> field list \<Rightarrow> nat \<Rightarrow> draggable list \<times> nat option list
     \<Rightarrow> draggable list \<times> nat option list" where
  "createAll m [] index (ds, ref) = (ds, ref)"
| "createAll m (field # rest) index (ds, ref) =
     createAll m rest (Suc index)
       (ds @ replicate (m index)
               \<lparr> selectorIndex = index, capturedId = getProp field ''id'', killed = False \<rparr>,
        ref @ [if m index = 0 then None else Some (length ds)])"

text \<open>
  What React does when the effect or its cleanup function throws: with no error boundary
  around it, the whole \<open>App\<close> is unmounted. The effect that threw has no cleanup
  function to run then.
\<close>

definition unmountOnError :: "app \<Rightarrow> app" where
  "unmountOnError s =
     s\<lparr> crashed := True, domFields := [], domStale := [], effectCleanup := False \<rparr>"

text \<open>
  The body of the effect. Without the libraries it returns at once, and returns no
  cleanup function. Otherwise \<open>window.gsap.registerPlugin(window.Draggable)\<close> throws
  when the two are not defined. Then it kills what the array names, empties the array,
  creates the new instances, and returns the cleanup function.
\<close>

definition dragEffect :: "app \<Rightarrow> app" where
  "dragEffect s =
     (if \<not> librariesLoaded s then s\<lparr> effectCleanup := False \<rparr>
      else if \<not> windowGsap s then unmountOnError s
      else case killAll (draggableInstancesRef s) (draggables s) of
             (ds, False) \<Rightarrow> unmountOnError (s\<lparr> draggables := ds \<rparr>)
           | (ds, True) \<Rightarrow>
               (case createAll (matching s) (fields' s) 0 (ds, []) of
                  (ds', ref) \<Rightarrow>
                    s\<lparr> draggables := ds', draggableInstancesRef := ref, effectCleanup := True \<rparr>))"

text \<open>The cleanup function: it kills what the array names and leaves the array as it is.\<close>

definition dragCleanup :: "app \<Rightarrow> app" where
  "dragCleanup s =
     (case killAll (draggableInstancesRef s) (draggables s) of
        (ds, False) \<Rightarrow> unmountOnError (s\<lparr> draggables := ds \<rparr>)
      | (ds, True) \<Rightarrow> s\<lparr> draggables := ds \<rparr>)"

text \<open>The dependency array \<open>[fields.length, meme.imageUrl, librariesLoaded]\<close>.\<close>

definition dragDeps :: "app \<Rightarrow> nat \<times> jsval \<times> bool" where
  "dragDeps s = (length (fields' s), imageUrl (meme s), librariesLoaded s)"

text \<open>
  The effect of a render whose dependency values differ from those of the last run:
  the cleanup function of the last run, if it returned one, and then the effect. React
  runs the effect also when the cleanup function has thrown; the effect then throws at
  the same entry of the array.
\<close>

definition rerunEffect :: "app \<Rightarrow> app" where
  "rerunEffect s =
     dragEffect ((if effectCleanup s then dragCleanup s else s)
                   \<lparr> effectDeps := Some (dragDeps s) \<rparr>)"

text \<open>
  What React does after a state change: it renders, and runs the effect when the
  dependency values are not those of its last run.
\<close>

definition commit :: "app \<Rightarrow> app" where
  "commit s =
     (if crashed s then s
      else if effectDeps (render s) = Some (dragDeps (render s)) then render s
      else rerunEffect (render s))"

text \<open>The instances that have not been killed, by name, in order of creation.\<close>

definition liveDraggables :: "app \<Rightarrow> nat list" where
  "liveDraggables s = filter (\<lambda>h. \<not> killed (draggables s ! h)) [0..<length (draggables s)]"

subsection \<open>The export handler\<close>

record captureOptions =
  useCORS :: bool
  backgroundColor :: jsval
  logging :: bool

text \<open>
  What the export does outside the component state: a line on the error console, a call
  of \<open>html2canvas\<close> on the composition element with the given options, and a click on a
  link with the given \<open>download\<close> name and \<open>href\<close>.
\<close>

datatype effect =
    ConsoleError string
  | Html2canvas captureOptions
  | LinkClick string string

text \<open>
  \<open>handleDownloadMeme\<close> up to its \<open>setTimeout\<close>: the new state, what it did outside,
  and the delay in milliseconds of the timer it started, if any. \<open>html2canvasLoaded\<close>
  is the truth of \<open>window.html2canvas\<close>.
\<close>

definition handleDownloadMeme :: "bool \<Rightarrow> app \<Rightarrow> app \<times> effect list \<times> nat option" where
  "handleDownloadMeme html2canvasLoaded s =
     (if \<not> html2canvasLoaded then (s, [ConsoleError ''html2canvas not loaded''], None)
      else (s\<lparr> activeFieldId := JNull \<rparr>, [], Some 150))"

text \<open>
  The timer's callback. \<open>hasRef\<close> is the truth of \<open>memeRef.current\<close> when the timer
  fires; \<open>capture\<close> is how the promise chain ends: \<open>Inr\<close> the data URI of
  \<open>canvas.toDataURL\<close>, or \<open>Inl\<close> the error rejected or thrown; \<open>now\<close> is
  \<open>Date.now()\<close> in the \<open>then\<close> callback.
\<close>

definition downloadTimeout :: "bool \<Rightarrow> string + string \<Rightarrow> int \<Rightarrow> effect list" where
  "downloadTimeout hasRef capture now =
     (if \<not> hasRef then []
      else Html2canvas \<lparr> useCORS = True, backgroundColor = JNull, logging = False \<rparr> #
           (case capture of
              Inr dataUri \<Rightarrow> [LinkClick (''meme-'' @ numberToString now @ ''.png'') dataUri]
            | Inl err \<Rightarrow> [ConsoleError (''Canvas capture error: '' @ err)]))"

subsection \<open>The component as a machine\<close>

text \<open>
  One event is one callback the browser or React runs on the mounted component.
  \<open>ScriptsLoaded\<close> is the \<open>setLoaded(true)\<close> of the script loader,
  \<open>GsapDefined\<close> the moment the GSAP scripts have run and defined
  \<open>window.gsap\<close> and \<open>window.Draggable\<close>, and
  \<open>MemesFetched\<close> the \<open>setAllMemes\<close> of the template fetch. \<open>Click\<close> and
  \<open>DragEnd\<close> name the \<open>Draggable\<close> instance whose callback runs. The handlers of the
  rendered page exist only once the libraries are loaded, since before that the component
  renders the loading screen; a killed instance runs no callback. A handler of the page
  may run here whenever the page is rendered, also when the panel or toolbar holding its
  control is not shown, and with any arguments: the machine reaches every state the
  component reaches.
\<close>

datatype event =
    ScriptsLoaded
  | GsapDefined
  | MemesFetched "template list"
  | SelectMeme jsval
  | RandomMeme nat
  | AddField int
  | FieldChange jsval string jsval
  | DeleteField jsval
  | ImageUpload "string option"
  | ReaderLoadEnd nat jsval
  | DownloadMeme bool
  | CanvasClick bool
  | SetPanel string
  | Click nat
  | DragEnd nat jsval jsval

definition isLive :: "app \<Rightarrow> nat \<Rightarrow> bool" where
  "isLive s h = (h < length (draggables s) \<and> \<not> killed (draggables s ! h))"

fun handler :: "event \<Rightarrow> app \<Rightarrow> app" where
  "handler ScriptsLoaded s = s\<lparr> librariesLoaded := True \<rparr>"
| "handler GsapDefined s = s\<lparr> windowGsap := True \<rparr>"
| "handler (MemesFetched ms) s = s\<lparr> allMemes := ms \<rparr>"
| "handler (ReaderLoadEnd n r) s = readerOnLoadEnd n r s"
| "handler (Click h) s = (if isLive s h then onClick (capturedId (draggables s ! h)) s else s)"
| "handler (DragEnd h px py) s =
     (if isLive s h then onDragEnd (capturedId (draggables s ! h)) px py s else s)"
| "handler (SelectMeme u) s = (if librariesLoaded s then handleSelectMeme u s else s)"
| "handler (RandomMeme i) s = (if librariesLoaded s then handleRandomMeme i s else s)"
| "handler (AddField now) s = (if librariesLoaded s then handleAddField now s else s)"
| "handler (FieldChange i k v) s = (if librariesLoaded s then handleFieldChange i k v s else s)"
| "handler (DeleteField i) s = (if librariesLoaded s then handleDeleteField i s else s)"
| "handler (ImageUpload file) s = (if librariesLoaded s then handleImageUpload file s else s)"
| "handler (DownloadMeme b) s = (if librariesLoaded s then fst (handleDownloadMeme b s) else s)"
| "handler (CanvasClick b) s = (if librariesLoaded s then handleCanvasClick b s else s)"
| "handler (SetPanel p) s = (if librariesLoaded s then s\<lparr> activePanel := p \<rparr> else s)"

text \<open>
  An event is followed by the render it causes and the effect of that render. Once the
  \<open>App\<close> is unmounted no callback changes anything.
\<close>

definition step :: "event \<Rightarrow> app \<Rightarrow> app" where
  "step e s = (if crashed s then s else commit (handler e s))"

definition run :: "event list \<Rightarrow> app \<Rightarrow> app" where
  "run es s = fold step es s"

text \<open>The component after its first render and the first run of the effect.\<close>

definition mounted :: app where
  "mounted = commit initialApp"

subsection \<open>Sequences of additions and removals\<close>

datatype fieldOp = OpAdd int | OpRemove jsval

fun applyOp :: "fieldOp \<Rightarrow> app \<Rightarrow> app" where
  "applyOp (OpAdd now) s = handleAddField now s"
| "applyOp (OpRemove i) s = handleDeleteField i s"

definition runOps :: "fieldOp list \<Rightarrow> app \<Rightarrow> app" where
  "runOps ops s = fold applyOp ops s"

text \<open>The number of additions in a sequence.\<close>

fun countAdds :: "fieldOp list \<Rightarrow> nat" where
  "countAdds [] = 0"
| "countAdds (OpAdd now # ops) = Suc (countAdds ops)"
| "countAdds (OpRemove i # ops) = countAdds ops"

text \<open>
  The number of removals in a sequence, run from \<open>s\<close>, that name an identifier in the
  store at the moment they run.
\<close>

fun countRemoves :: "app \<Rightarrow> fieldOp list \<Rightarrow> nat" where
  "countRemoves s [] = 0"
| "countRemoves s (OpAdd now # ops) = countRemoves (handleAddField now s) ops"
| "countRemoves s (OpRemove i # ops) =
     (if i \<in> set (fieldIds s) then 1 else 0) + countRemoves (handleDeleteField i s) ops"

text \<open>
  Every addition of a sequence, run from \<open>s\<close>, gets from \<open>Date.now()\<close> a number that
  is the identifier of no field in the store at that moment.
\<close>

fun freshAdds :: "app \<Rightarrow> fieldOp list \<Rightarrow> bool" where
  "freshAdds s [] = True"
| "freshAdds s (OpAdd now # ops) =
     (JNum now \<notin> set (fieldIds s) \<and> freshAdds (handleAddField now s) ops)"
| "freshAdds s (OpRemove i # ops) = freshAdds (handleDeleteField i s) ops"

subsection \<open>The script loader \<open>useScriptLoader\<close>\<close>

definition SCRIPT_URLS :: "string list" where
  "SCRIPT_URLS =
     [''https://cdnjs.cloudflare.com/ajax/libs/html2canvas/1.4.1/html2canvas.min.js'',
      ''https://cdnjs.cloudflare.com/ajax/libs/gsap/3.12.2/gsap.min.js'',
      ''https://cdnjs.cloudflare.com/ajax/libs/gsap/3.12.2/Draggable.min.js'']"

datatype promise = Pending | Fulfilled | Rejected

text \<open>
  The hook and the part of the page it touches. \<open>scriptTags\<close> lists the \<open>src\<close> of the
  script elements in the document, which is what \<open>document.querySelector\<close> looks at;
  \<open>executed\<close> lists the sources whose script has in fact loaded. \<open>promises\<close> are the
  promises of \<open>scripts.map(loadScript)\<close>, in order, and \<open>allSettled\<close> is the promise
  of \<open>Promise.all\<close>, whose \<open>then\<close> and \<open>catch\<close> callbacks run when it settles.
  The sources are taken to need no escaping inside the quoted selector, as those of
  \<open>SCRIPT_URLS\<close> do not.
\<close>

record loader =
  scripts :: "string list"
  scriptTags :: "string list"
  executed :: "string list"
  promises :: "promise list"
  allSettled :: promise
  loaded :: bool
  console :: "string list"

text \<open>
  \<open>scripts.map(loadScript)\<close>: the executor of each promise runs at once, so a source
  whose element is in the document, also one appended for an earlier entry of the same
  list, is resolved immediately; any other gets a new element and stays pending.
\<close>

fun loadScripts :: "string list \<Rightarrow> string list \<Rightarrow> promise list \<times> string list" where
  "loadScripts [] tags = ([], tags)"
| "loadScripts (src # rest) tags =
     (if src \<in> set tags
      then (case loadScripts rest tags of (ps, tags') \<Rightarrow> (Fulfilled # ps, tags'))
      else (case loadScripts rest (tags @ [src]) of (ps, tags') \<Rightarrow> (Pending # ps, tags')))"

text \<open>
  \<open>Promise.all\<close> over settled-once promises: rejected as soon as one is rejected,
  fulfilled once all are fulfilled.
\<close>

definition promiseAll :: "promise list \<Rightarrow> promise" where
  "promiseAll ps =
     (if Rejected \<in> set ps then Rejected
      else if list_all (\<lambda>p. p = Fulfilled) ps then Fulfilled else Pending)"

text \<open>
  The two callbacks chained on \<open>Promise.all\<close>, run when it settles, which it does once:
  \<open>setLoaded(true)\<close> on fulfilment, \<open>console.error\<close> with the rejecting error
  otherwise. \<open>err\<close> is the message of the error of the promise that has just rejected.
\<close>

definition settle :: "string \<Rightarrow> loader \<Rightarrow> loader" where
  "settle err l =
     (if allSettled l \<noteq> Pending then l
      else case promiseAll (promises l) of
             Fulfilled \<Rightarrow> l\<lparr> allSettled := Fulfilled, loaded := True \<rparr>
           | Rejected \<Rightarrow> l\<lparr> allSettled := Rejected,
                              console := console l @ [''Failed to load scripts: '' @ err] \<rparr>
           | Pending \<Rightarrow> l)"

text \<open>
  The effect of the hook, run once on mount, in a document with the script elements
  \<open>tags\<close>, of which those in \<open>ready\<close> have loaded.
\<close>

definition mountLoader :: "string list \<Rightarrow> string list \<Rightarrow> string list \<Rightarrow> loader" where
  "mountLoader urls tags ready =
     settle [] \<lparr> scripts = urls, scriptTags = snd (loadScripts urls tags), executed = ready,
                 promises = fst (loadScripts urls tags), allSettled = Pending,
                 loaded = False, console = [] \<rparr>"

text \<open>
  The \<open>load\<close> and \<open>error\<close> events of the element created for entry \<open>n\<close> of the
  list. Only an element the hook created has these handlers, and a promise settles once,
  so an event for an entry that is not pending changes nothing.
\<close>

datatype scriptEvent = ScriptOnLoad nat | ScriptOnError nat

fun loaderStep :: "scriptEvent \<Rightarrow> loader \<Rightarrow> loader" where
  "loaderStep (ScriptOnLoad n) l =
     (if n < length (promises l) \<and> promises l ! n = Pending
      then settle [] (l\<lparr> promises := (promises l)[n := Fulfilled],
                         executed := executed l @ [scripts l ! n] \<rparr>)
      else l)"
| "loaderStep (ScriptOnError n) l =
     (if n < length (promises l) \<and> promises l ! n = Pending
      then settle (''Script load error for '' @ scripts l ! n)
             (l\<lparr> promises := (promises l)[n := Rejected] \<rparr>)
      else l)"

definition runLoader :: "scriptEvent list \<Rightarrow> loader \<Rightarrow> loader" where
  "runLoader es l = fold loaderStep es l"

text \<open>
  What holds of the hook after its effect and after every event: one promise per
  script, the promise of \<open>Promise.all\<close> settled as its inputs say, the flag set
  exactly if it is fulfilled, and one line on the console exactly if it is rejected.
\<close>

definition loaderInv :: "loader \<Rightarrow> bool" where
  "loaderInv l =
     (length (promises l) = length (scripts l) \<and> allSettled l = promiseAll (promises l) \<and>
      loaded l = (allSettled l = Fulfilled) \<and>
      length (console l) = (if allSettled l = Rejected then 1 else 0))"

section \<open>Properties\<close>

subsection \<open>Auxiliary facts\<close>

lemma map_fixed_iff: "(map g xs = xs) = (\<forall>x\<in>set xs. g x = x)"
  by (induction xs) auto

lemma fields_update_noop_iff: "(s\<lparr> fields' := fs \<rparr> = s) = (fs = fields' s)"
  by (cases s) auto

lemma getProp_mkField_id: "getProp (mkField i t f c sz px py) ''id'' = i"
  by (simp add: mkField_def getProp_def)

lemma getProp_newField_id: "getProp (newField now) ''id'' = JNum now"
  by (simp add: newField_def getProp_mkField_id)

lemma reactKey_examples:
  "reactKey (JNum 1) = Some ''1''"
  "reactKey (JNum 2) = Some ''2''"
  "reactKey (JNum 1762041600000) = Some ''1762041600000''"
  by (simp_all add: reactKey_def numberToString_def showNat.simps digitChar_def)

lemmas machine_simps = run_def step_def mounted_def commit_def rerunEffect_def render_def
  dragEffect_def dragCleanup_def dragDeps_def unmountOnError_def matching_def orphans_def
  fieldKeys_def mapKey_def initialApp_def initialFields_def isLive_def liveDraggables_def
  getProp_mkField_id getProp_newField_id reactKey_examples upt_rec

subsection \<open>Editing one attribute\<close>

text \<open>
  C1 (as stated, refuted): \<open>handleFieldChange\<close> with a key outside text, font, color,
  size, x, y, on an identifier in the store, would leave the store as it was. On the
  initial store, setting the key \<open>rotation\<close> of field 1 gives a different store.
\<close>

theorem handleFieldChange_unknown_key_changes_store:
  "''rotation'' \<notin> set knownAttributes \<and> JNum 1 \<in> set (fieldIds initialApp) \<and>
   handleFieldChange (JNum 1) ''rotation'' (JNum 90) initialApp \<noteq> initialApp"
proof -
  have "(fields' (handleFieldChange (JNum 1) ''rotation'' (JNum 90) initialApp) ! 0) ''rotation''
          = Some (JNum 90)"
    by (simp add: handleFieldChange_def initialApp_def initialFields_def mkField_def getProp_def)
  moreover have "(fields' initialApp ! 0) ''rotation'' = None"
    by (simp add: initialApp_def initialFields_def mkField_def)
  ultimately have "handleFieldChange (JNum 1) ''rotation'' (JNum 90) initialApp \<noteq> initialApp"
    by auto
  then show ?thesis
    by (simp add: knownAttributes_def fieldIds_def initialApp_def initialFields_def mkField_def
        getProp_def)
qed

text \<open>
  C1 (amended): with a key outside text, font, color, size, x, y, \<open>handleFieldChange\<close>
  keeps the number of fields, keeps each of these six attributes of every field, keeps
  every field whose identifier is not the given one, and sets the key to the value on
  every field whose identifier is the given one. The store is unchanged exactly when
  every such field already holds the value under the key.
\<close>

theorem handleFieldChange_unknown_key:
  assumes "k \<notin> set knownAttributes"
  shows "length (fields' (handleFieldChange i k v s)) = length (fields' s) \<and>
    (\<forall>n<length (fields' s). \<forall>a\<in>set knownAttributes.
           (fields' (handleFieldChange i k v s) ! n) a = (fields' s ! n) a) \<and>
    (\<forall>n<length (fields' s). getProp (fields' s ! n) ''id'' \<noteq> i \<longrightarrow>
           fields' (handleFieldChange i k v s) ! n = fields' s ! n) \<and>
    (\<forall>n<length (fields' s). getProp (fields' s ! n) ''id'' = i \<longrightarrow>
           fields' (handleFieldChange i k v s) ! n = (fields' s ! n)(k \<mapsto> v)) \<and>
    ((handleFieldChange i k v s = s) =
           (\<forall>f\<in>set (fields' s). getProp f ''id'' = i \<longrightarrow> f k = Some v))"
proof -
  have len: "length (fields' (handleFieldChange i k v s)) = length (fields' s)"
    by (simp add: handleFieldChange_def)
  have known: "\<forall>n<length (fields' s). \<forall>a\<in>set knownAttributes.
           (fields' (handleFieldChange i k v s) ! n) a = (fields' s ! n) a"
    using assms by (auto simp: handleFieldChange_def)
  have other: "\<forall>n<length (fields' s). getProp (fields' s ! n) ''id'' \<noteq> i \<longrightarrow>
           fields' (handleFieldChange i k v s) ! n = fields' s ! n"
    by (simp add: handleFieldChange_def)
  have match: "\<forall>n<length (fields' s). getProp (fields' s ! n) ''id'' = i \<longrightarrow>
           fields' (handleFieldChange i k v s) ! n = (fields' s ! n)(k \<mapsto> v)"
    by (simp add: handleFieldChange_def)
  have "(handleFieldChange i k v s = s) =
        (map (\<lambda>f. if getProp f ''id'' = i then f(k \<mapsto> v) else f) (fields' s) = fields' s)"
    by (simp add: handleFieldChange_def fields_update_noop_iff)
  also have "\<dots> = (\<forall>f\<in>set (fields' s). getProp f ''id'' = i \<longrightarrow> f k = Some v)"
    by (auto simp: map_fixed_iff fun_upd_idem_iff)
  finally have noop: "(handleFieldChange i k v s = s) =
           (\<forall>f\<in>set (fields' s). getProp f ''id'' = i \<longrightarrow> f k = Some v)" .
  from len known other match noop show ?thesis by blast
qed

theorem handleFieldChange_unknown_key_witness:
  "''rotation'' \<notin> set knownAttributes \<and>
   length (fields' (handleFieldChange (JNum 1) ''rotation'' (JNum 90) initialApp)) = 2 \<and>
   (fields' (handleFieldChange (JNum 1) ''rotation'' (JNum 90) initialApp) ! 0) ''text''
     = Some (JStr ''One does not simply'') \<and>
   fields' (handleFieldChange (JNum 1) ''rotation'' (JNum 90) initialApp) ! 1
     = fields' initialApp ! 1 \<and>
   fields' (handleFieldChange (JNum 1) ''rotation'' (JNum 90) initialApp) ! 0
     = (fields' initialApp ! 0)(''rotation'' \<mapsto> JNum 90)"
proof -
  have k: "''rotation'' \<notin> set knownAttributes"
    by (simp add: knownAttributes_def)
  have f: "fields' initialApp = initialFields"
    by (simp add: initialApp_def)
  have t: "''text'' \<in> set knownAttributes"
    by (simp add: knownAttributes_def)
  have i0: "getProp (initialFields ! 0) ''id'' = JNum 1"
    and i1: "getProp (initialFields ! 1) ''id'' \<noteq> JNum 1"
    and t0: "(initialFields ! 0) ''text'' = Some (JStr ''One does not simply'')"
    and l: "length initialFields = 2"
    by (simp_all add: initialFields_def mkField_def getProp_def)
  from handleFieldChange_unknown_key [OF k, of "JNum 1" "JNum 90" initialApp] k t i0 i1 t0 l
  show ?thesis
    unfolding f by force
qed

subsection \<open>Removing a field\<close>

lemma fieldIds_delete: "fieldIds (handleDeleteField i s) = filter (\<lambda>j. j \<noteq> i) (fieldIds s)"
  by (simp add: fieldIds_def handleDeleteField_def filter_map comp_def)

lemma length_removed:
  "length (filter (\<lambda>f. getProp f ''id'' \<noteq> i) fs) + length (filter (\<lambda>f. getProp f ''id'' = i) fs)
     = length fs"
  using sum_length_filter_compl [of "\<lambda>f. getProp f ''id'' \<noteq> i" fs] by simp

text \<open>
  C6: \<open>handleDeleteField\<close> deletes the field with the given identifier: no field with
  it is left, every other field stays, in the same order, and the store shrinks by the
  number of fields that had it. Afterwards the active identifier is none if it was the
  given one and is what it was otherwise.
\<close>

theorem handleDeleteField_effect:
  "i \<notin> set (fieldIds (handleDeleteField i s)) \<and>
   (\<forall>f\<in>set (fields' s). getProp f ''id'' \<noteq> i \<longrightarrow> f \<in> set (fields' (handleDeleteField i s))) \<and>
   subseq (fields' (handleDeleteField i s)) (fields' s) \<and>
   length (fields' (handleDeleteField i s)) + length (filter (\<lambda>j. j = i) (fieldIds s))
     = length (fields' s) \<and>
   activeFieldId (handleDeleteField i s) = (if activeFieldId s = i then JNull else activeFieldId s)"
proof -
  have a: "i \<notin> set (fieldIds (handleDeleteField i s))"
    by (simp add: fieldIds_delete)
  have b: "\<forall>f\<in>set (fields' s). getProp f ''id'' \<noteq> i \<longrightarrow> f \<in> set (fields' (handleDeleteField i s))"
    by (simp add: handleDeleteField_def)
  have c: "subseq (fields' (handleDeleteField i s)) (fields' s)"
    by (simp add: handleDeleteField_def)
  have d: "length (fields' (handleDeleteField i s)) + length (filter (\<lambda>j. j = i) (fieldIds s))
     = length (fields' s)"
    using length_removed [of i "fields' s"]
    by (simp add: handleDeleteField_def fieldIds_def filter_map comp_def)
  have e: "activeFieldId (handleDeleteField i s)
             = (if activeFieldId s = i then JNull else activeFieldId s)"
    by (simp add: handleDeleteField_def)
  from a b c d e show ?thesis by blast
qed

theorem handleDeleteField_effect_witness:
  "JNum 1 \<notin> set (fieldIds (handleDeleteField (JNum 1) (onClick (JNum 1) initialApp))) \<and>
   fields' (handleDeleteField (JNum 1) (onClick (JNum 1) initialApp)) = [initialFields ! 1] \<and>
   activeFieldId (handleDeleteField (JNum 1) (onClick (JNum 1) initialApp)) = JNull \<and>
   activeFieldId (handleDeleteField (JNum 2) (onClick (JNum 1) initialApp)) = JNum 1"
proof -
  have f: "fields' (handleDeleteField (JNum 1) (onClick (JNum 1) initialApp)) = [initialFields ! 1]"
    by (simp add: handleDeleteField_def onClick_def initialApp_def initialFields_def mkField_def
        getProp_def)
  have a1: "activeFieldId (onClick (JNum 1) initialApp) = JNum 1"
    by (simp add: onClick_def)
  from handleDeleteField_effect [of "JNum 1" "onClick (JNum 1) initialApp"]
    handleDeleteField_effect [of "JNum 2" "onClick (JNum 1) initialApp"] f a1
  show ?thesis by simp
qed

text \<open>
  C9: \<open>handleDeleteField\<close> is defined on every store and identifier; it removes every
  field whose identifier is the given one, not only the first; applied twice it gives
  the state it gives applied once; and with an identifier no field has, it leaves the
  list of fields as it was.
\<close>

theorem handleDeleteField_idempotent:
  "fields' (handleDeleteField i s) = filter (\<lambda>f. getProp f ''id'' \<noteq> i) (fields' s) \<and>
   i \<notin> set (fieldIds (handleDeleteField i s)) \<and>
   handleDeleteField i (handleDeleteField i s) = handleDeleteField i s \<and>
   (i \<notin> set (fieldIds s) \<longrightarrow> fields' (handleDeleteField i s) = fields' s)"
proof -
  have a: "fields' (handleDeleteField i s) = filter (\<lambda>f. getProp f ''id'' \<noteq> i) (fields' s)"
    by (simp add: handleDeleteField_def)
  have b: "i \<notin> set (fieldIds (handleDeleteField i s))"
    by (auto simp: fieldIds_def handleDeleteField_def)
  have c: "handleDeleteField i (handleDeleteField i s) = handleDeleteField i s"
    by (simp add: handleDeleteField_def)
  have d: "i \<notin> set (fieldIds s) \<longrightarrow> fields' (handleDeleteField i s) = fields' s"
    by (auto simp: handleDeleteField_def fieldIds_def filter_id_conv)
  from a b c d show ?thesis by blast
qed

theorem handleDeleteField_idempotent_witness:
  "fieldIds (handleAddField 7 (handleAddField 7 initialApp)) = [JNum 1, JNum 2, JNum 7, JNum 7] \<and>
   fieldIds (handleDeleteField (JNum 7) (handleAddField 7 (handleAddField 7 initialApp)))
     = [JNum 1, JNum 2] \<and>
   JNum 9 \<notin> set (fieldIds initialApp) \<and>
   fields' (handleDeleteField (JNum 9) initialApp) = fields' initialApp"
proof -
  have a: "fieldIds (handleAddField 7 (handleAddField 7 initialApp))
             = [JNum 1, JNum 2, JNum 7, JNum 7]"
    by (simp add: fieldIds_def handleAddField_def initialApp_def initialFields_def newField_def
        mkField_def getProp_def)
  have b: "JNum 9 \<notin> set (fieldIds initialApp)"
    by (simp add: fieldIds_def initialApp_def initialFields_def mkField_def getProp_def)
  have c: "fieldIds (handleDeleteField (JNum 7) (handleAddField 7 (handleAddField 7 initialApp)))
     = map (\<lambda>f. getProp f ''id'')
         (filter (\<lambda>f. getProp f ''id'' \<noteq> JNum 7)
            (fields' (handleAddField 7 (handleAddField 7 initialApp))))"
    using handleDeleteField_idempotent [of "JNum 7" "handleAddField 7 (handleAddField 7 initialApp)"]
    by (simp add: fieldIds_def)
  have d: "map (\<lambda>f. getProp f ''id'')
         (filter (\<lambda>f. getProp f ''id'' \<noteq> JNum 7)
            (fields' (handleAddField 7 (handleAddField 7 initialApp)))) = [JNum 1, JNum 2]"
    by (simp add: handleAddField_def initialApp_def initialFields_def newField_def
        mkField_def getProp_def)
  have e: "fields' (handleDeleteField (JNum 9) initialApp) = fields' initialApp"
    using b handleDeleteField_idempotent [of "JNum 9" initialApp] by blast
  from a b c d e show ?thesis by simp
qed

subsection \<open>Changing the background\<close>

text \<open>
  C10: \<open>handleImageUpload\<close> with no file leaves the whole state as it was. With a file
  it clears the active identifier, leaves the background as it is and starts the reader;
  the active identifier is still none after that reader ends, whatever its result, so
  also with the \<open>null\<close> of a failed read. The active identifier changes only when a
  file is present.
\<close>

theorem handleImageUpload_no_file:
  "handleImageUpload None s = s \<and>
   activeFieldId (handleImageUpload (Some f) s) = JNull \<and>
   meme (handleImageUpload (Some f) s) = meme s \<and>
   readers (handleImageUpload (Some f) s) = readers s @ [f] \<and>
   activeFieldId (readerOnLoadEnd n r (handleImageUpload (Some f) s)) = JNull \<and>
   (activeFieldId (handleImageUpload file s) \<noteq> activeFieldId s \<longrightarrow> file \<noteq> None)"
  by (auto simp: handleImageUpload_def readerOnLoadEnd_def split: option.splits)

theorem handleImageUpload_no_file_witness:
  "handleImageUpload None (onClick (JNum 1) initialApp) = onClick (JNum 1) initialApp \<and>
   activeFieldId (handleImageUpload (Some ''cat.png'') (onClick (JNum 1) initialApp)) = JNull \<and>
   activeFieldId (handleImageUpload (Some ''cat.png'') (onClick (JNum 1) initialApp))
     \<noteq> activeFieldId (onClick (JNum 1) initialApp) \<and>
   activeFieldId (readerOnLoadEnd 0 JNull
      (handleImageUpload (Some ''cat.png'') (onClick (JNum 1) initialApp))) = JNull"
  using handleImageUpload_no_file [of "onClick (JNum 1) initialApp" "''cat.png''" 0 JNull
      "Some ''cat.png''"]
  by (simp add: onClick_def)

text \<open>
  C5 (as stated, refuted): after every change of the background the active identifier
  would be none. With the libraries run and loaded, a file is chosen, the first field
  is clicked while the file is being read, and the read ends: the background is replaced
  and the active identifier is still that of the first field.
\<close>

theorem background_change_keeps_selection:
  "librariesLoaded (run [GsapDefined, ScriptsLoaded] mounted) \<and>
   imageUrl (meme (run [GsapDefined, ScriptsLoaded, ImageUpload (Some ''cat.png''), Click 0,
                        ReaderLoadEnd 0 (JStr ''data:image/png;base64,iVBORw0KGgo='')] mounted))
     \<noteq> imageUrl (meme (run [GsapDefined, ScriptsLoaded, ImageUpload (Some ''cat.png''),
                               Click 0] mounted)) \<and>
   activeFieldId (run [GsapDefined, ScriptsLoaded, ImageUpload (Some ''cat.png''), Click 0,
                        ReaderLoadEnd 0 (JStr ''data:image/png;base64,iVBORw0KGgo='')] mounted)
     = JNum 1"
  by (simp add: machine_simps handleImageUpload_def readerOnLoadEnd_def onClick_def
      INITIAL_IMAGE_URL_def)

text \<open>
  C5 (amended): selecting a template sets the background and clears the active
  identifier in one step, and so does the random template when the list of templates is
  not empty (with an empty list it changes nothing). Choosing a file clears the active
  identifier at once and leaves the background as it is; the background is replaced when
  the read ends, and that step leaves the active identifier as it is then.
\<close>

theorem background_handlers:
  "activeFieldId (handleSelectMeme u s) = JNull \<and> imageUrl (meme (handleSelectMeme u s)) = u \<and>
   (allMemes s \<noteq> [] \<longrightarrow> activeFieldId (handleRandomMeme i s) = JNull) \<and>
   (i < length (allMemes s) \<longrightarrow>
        imageUrl (meme (handleRandomMeme i s)) = JStr (turl (allMemes s ! i))) \<and>
   (allMemes s = [] \<longrightarrow> handleRandomMeme i s = s) \<and>
   activeFieldId (handleImageUpload (Some f) s) = JNull \<and>
   meme (handleImageUpload (Some f) s) = meme s \<and>
   (n < length (readers s) \<longrightarrow> imageUrl (meme (readerOnLoadEnd n r s)) = r \<and>
        activeFieldId (readerOnLoadEnd n r s) = activeFieldId s)"
  by (auto simp: handleSelectMeme_def handleRandomMeme_def handleImageUpload_def
      readerOnLoadEnd_def)

theorem background_handlers_witness:
  "allMemes (initialApp\<lparr> allMemes := [\<lparr> tid = ''181913649'', tname = ''Drake Hotline Bling'',
                                         turl = ''https://i.imgflip.com/30b1gx.jpg'' \<rparr>] \<rparr>) \<noteq> [] \<and>
   activeFieldId (handleRandomMeme 0
     (initialApp\<lparr> allMemes := [\<lparr> tid = ''181913649'', tname = ''Drake Hotline Bling'',
                                turl = ''https://i.imgflip.com/30b1gx.jpg'' \<rparr>] \<rparr>)) = JNull \<and>
   imageUrl (meme (handleRandomMeme 0
     (initialApp\<lparr> allMemes := [\<lparr> tid = ''181913649'', tname = ''Drake Hotline Bling'',
                                turl = ''https://i.imgflip.com/30b1gx.jpg'' \<rparr>] \<rparr>)))
     = JStr ''https://i.imgflip.com/30b1gx.jpg'' \<and>
   allMemes initialApp = [] \<and> handleRandomMeme 0 initialApp = initialApp \<and>
   0 < length (readers (onClick (JNum 1) (handleImageUpload (Some ''cat.png'') initialApp))) \<and>
   activeFieldId (readerOnLoadEnd 0 JNull
     (onClick (JNum 1) (handleImageUpload (Some ''cat.png'') initialApp))) = JNum 1"
proof -
  have e: "allMemes initialApp = []"
    by (simp add: initialApp_def)
  have r: "0 < length (readers (onClick (JNum 1) (handleImageUpload (Some ''cat.png'') initialApp)))"
    and a: "activeFieldId (onClick (JNum 1) (handleImageUpload (Some ''cat.png'') initialApp)) = JNum 1"
    by (simp_all add: onClick_def handleImageUpload_def)
  from background_handlers [of "JStr ''https://i.imgflip.com/30b1gx.jpg''"
      "initialApp\<lparr> allMemes := [\<lparr> tid = ''181913649'', tname = ''Drake Hotline Bling'',
                                 turl = ''https://i.imgflip.com/30b1gx.jpg'' \<rparr>] \<rparr>"
      0 "''cat.png''" 0 JNull]
    background_handlers [of JNull initialApp 0 "''cat.png''" 0 JNull]
    background_handlers [of JNull "onClick (JNum 1) (handleImageUpload (Some ''cat.png'') initialApp)"
      0 "''cat.png''" 0 JNull] e r a
  show ?thesis by simp
qed

subsection \<open>Adding and removing fields\<close>

lemma fieldIds_add: "fieldIds (handleAddField now s) = fieldIds s @ [JNum now]"
  by (simp add: fieldIds_def handleAddField_def newField_def mkField_def getProp_def)

lemma length_fieldIds: "length (fieldIds s) = length (fields' s)"
  by (simp add: fieldIds_def)

lemma length_filter_neq_distinct:
  "distinct xs \<Longrightarrow> length (filter (\<lambda>j. j \<noteq> i) xs) + (if i \<in> set xs then 1 else 0) = length xs"
  by (induction xs) auto

lemma runOps_Cons: "runOps (x # ops) s = runOps ops (applyOp x s)"
  by (simp add: runOps_def)

lemma runOps_Nil: "runOps [] s = s"
  by (simp add: runOps_def)

lemma ops_invariant:
  "distinct (fieldIds s) \<Longrightarrow> freshAdds s ops \<Longrightarrow>
   distinct (fieldIds (runOps ops s)) \<and>
   length (fieldIds (runOps ops s)) + countRemoves s ops = length (fieldIds s) + countAdds ops"
proof (induction s ops rule: freshAdds.induct)
  case (1 s)
  then show ?case by (simp add: runOps_Nil)
next
  case (2 s now ops)
  then show ?case
    by (simp add: runOps_Cons fieldIds_add)
next
  case (3 s i ops)
  have d: "distinct (fieldIds (handleDeleteField i s))"
    using "3.prems"(1) by (simp add: fieldIds_delete)
  have l: "length (fieldIds (handleDeleteField i s)) + (if i \<in> set (fieldIds s) then 1 else 0)
            = length (fieldIds s)"
    using "3.prems"(1) by (simp add: fieldIds_delete length_filter_neq_distinct)
  from "3.IH" [OF d] "3.prems"(2) l show ?case
    by (simp add: runOps_Cons)
qed

lemma freshAdds_take: "freshAdds s ops \<Longrightarrow> freshAdds s (take n ops)"
proof (induction s ops arbitrary: n rule: freshAdds.induct)
  case (1 s)
  then show ?case by simp
next
  case (2 s now ops)
  then show ?case by (cases n) simp_all
next
  case (3 s i ops)
  then show ?case by (cases n) simp_all
qed

lemma distinct_initial: "distinct (fieldIds initialApp)"
  by (simp add: fieldIds_def initialApp_def initialFields_def mkField_def getProp_def)

text \<open>
  C2: after every sequence of additions and removals from the two initial fields the
  identifiers are pairwise distinct and the size is the initial size plus the additions
  minus the successful removals. The code does not keep this. \<open>handleAddField\<close>
  takes the identifier from \<open>Date.now()\<close> and compares it with nothing: two additions
  for which \<open>Date.now()\<close> gives the same millisecond make two fields with one
  identifier, and one removal of that identifier then removes both.
\<close>

theorem add_same_millisecond:
  "\<not> distinct (fieldIds (runOps [OpAdd 1762041600000, OpAdd 1762041600000] initialApp)) \<and>
   int (length (fields' (runOps [OpAdd 1762041600000, OpAdd 1762041600000,
                                  OpRemove (JNum 1762041600000)] initialApp)))
     \<noteq> int (length (fields' initialApp))
         + int (countAdds [OpAdd 1762041600000, OpAdd 1762041600000, OpRemove (JNum 1762041600000)])
         - int (countRemoves initialApp
                  [OpAdd 1762041600000, OpAdd 1762041600000, OpRemove (JNum 1762041600000)])"
  by (simp add: runOps_def fieldIds_def handleAddField_def handleDeleteField_def initialApp_def
      initialFields_def newField_def mkField_def getProp_def)

text \<open>
  Both properties hold of the sequences in which no addition gets from \<open>Date.now()\<close>
  the identifier of a field then in the store.
\<close>

lemma add_remove_sequences:
  assumes "freshAdds initialApp ops"
  shows "\<forall>n\<le>length ops.
           distinct (fieldIds (runOps (take n ops) initialApp)) \<and>
           int (length (fields' (runOps (take n ops) initialApp)))
             = int (length (fields' initialApp)) + int (countAdds (take n ops))
                 - int (countRemoves initialApp (take n ops))"
proof (intro allI impI)
  fix n
  assume "n \<le> length ops"
  have f: "freshAdds initialApp (take n ops)"
    using assms by (rule freshAdds_take)
  from ops_invariant [OF distinct_initial f]
  show "distinct (fieldIds (runOps (take n ops) initialApp)) \<and>
           int (length (fields' (runOps (take n ops) initialApp)))
             = int (length (fields' initialApp)) + int (countAdds (take n ops))
                 - int (countRemoves initialApp (take n ops))"
    by (simp add: length_fieldIds)
qed

lemma add_remove_sequences_example:
  "freshAdds initialApp
     [OpAdd 1762041600000, OpRemove (JNum 1), OpRemove (JNum 2), OpRemove (JNum 5)] \<and>
   distinct (fieldIds (runOps
     [OpAdd 1762041600000, OpRemove (JNum 1), OpRemove (JNum 2), OpRemove (JNum 5)] initialApp)) \<and>
   int (length (fields' (runOps
     [OpAdd 1762041600000, OpRemove (JNum 1), OpRemove (JNum 2), OpRemove (JNum 5)] initialApp)))
     = 2 + 1 - 2"
proof -
  have f: "freshAdds initialApp
             [OpAdd 1762041600000, OpRemove (JNum 1), OpRemove (JNum 2), OpRemove (JNum 5)]"
    by (simp add: fieldIds_def initialApp_def initialFields_def mkField_def getProp_def)
  have c: "countRemoves initialApp
             [OpAdd 1762041600000, OpRemove (JNum 1), OpRemove (JNum 2), OpRemove (JNum 5)] = 2"
    by (simp add: fieldIds_def handleAddField_def handleDeleteField_def initialApp_def
      initialFields_def newField_def mkField_def getProp_def)
  have l: "length (fields' initialApp) = 2"
    by (simp add: initialApp_def initialFields_def)
  have "4 \<le> length [OpAdd 1762041600000, OpRemove (JNum 1), OpRemove (JNum 2), OpRemove (JNum 5)]"
    by simp
  with add_remove_sequences [OF f]
  have "distinct (fieldIds (runOps (take 4
           [OpAdd 1762041600000, OpRemove (JNum 1), OpRemove (JNum 2), OpRemove (JNum 5)])
           initialApp)) \<and>
        int (length (fields' (runOps (take 4
           [OpAdd 1762041600000, OpRemove (JNum 1), OpRemove (JNum 2), OpRemove (JNum 5)])
           initialApp)))
          = int (length (fields' initialApp))
            + int (countAdds (take 4
                [OpAdd 1762041600000, OpRemove (JNum 1), OpRemove (JNum 2), OpRemove (JNum 5)]))
            - int (countRemoves initialApp (take 4
                [OpAdd 1762041600000, OpRemove (JNum 1), OpRemove (JNum 2), OpRemove (JNum 5)]))"
    by blast
  with f c l show ?thesis by simp
qed

subsection \<open>Releasing a drag\<close>

text \<open>
  C8: the release handler of the behaviour of a field changes the position of that field
  and the record of no other. The code does not keep this. The handler finds the field
  by its identifier alone, and after two additions in one millisecond the third and the
  fourth field share theirs: releasing the behaviour attached for the third field, here
  instance 7, also moves the fourth.
\<close>

theorem onDragEnd_shared_id:
  "isLive (run [GsapDefined, ScriptsLoaded, AddField 1762041600000, AddField 1762041600000]
             mounted) 7 \<and>
   selectorIndex (draggables
      (run [GsapDefined, ScriptsLoaded, AddField 1762041600000, AddField 1762041600000]
         mounted) ! 7) = 2 \<and>
   (fields' (run [GsapDefined, ScriptsLoaded, AddField 1762041600000, AddField 1762041600000]
               mounted) ! 3) ''x''
      = Some (JNum 150) \<and>
   (fields' (run [GsapDefined, ScriptsLoaded, AddField 1762041600000, AddField 1762041600000,
                  DragEnd 7 (JNum 10) (JNum 20)] mounted) ! 3) ''x'' = Some (JNum 10)"
proof -
  have x: "newField 1762041600000 ''x'' = Some (JNum 150)"
    by (simp add: newField_def mkField_def)
  show ?thesis
    by (simp add: machine_simps handleAddField_def onDragEnd_def x)
qed

text \<open>
  What the release handler does on any store: it sets x and y, to the final offsets of
  the behaviour, on every field whose identifier is the captured one, and leaves every
  field with another identifier, every other attribute, the number of fields, the
  selection and the background as they were. Where one field only has the captured
  identifier, the record of that field is the only one that changes.
\<close>

lemma onDragEnd_frame:
  "length (fields' (onDragEnd fid px py s)) = length (fields' s) \<and>
   (\<forall>n<length (fields' s). getProp (fields' s ! n) ''id'' = fid \<longrightarrow>
        fields' (onDragEnd fid px py s) ! n = (fields' s ! n)(''x'' \<mapsto> px, ''y'' \<mapsto> py)) \<and>
   (\<forall>n<length (fields' s). getProp (fields' s ! n) ''id'' \<noteq> fid \<longrightarrow>
        fields' (onDragEnd fid px py s) ! n = fields' s ! n) \<and>
   (\<forall>n<length (fields' s). \<forall>k. k \<noteq> ''x'' \<longrightarrow> k \<noteq> ''y'' \<longrightarrow>
        (fields' (onDragEnd fid px py s) ! n) k = (fields' s ! n) k) \<and>
   (\<forall>n<length (fields' s). getProp (fields' s ! n) ''id'' = fid \<longrightarrow>
        (\<forall>m<length (fields' s). m \<noteq> n \<longrightarrow> getProp (fields' s ! m) ''id'' \<noteq> fid) \<longrightarrow>
        fields' (onDragEnd fid px py s)
          = (fields' s)[n := (fields' s ! n)(''x'' \<mapsto> px, ''y'' \<mapsto> py)]) \<and>
   activeFieldId (onDragEnd fid px py s) = activeFieldId s \<and> meme (onDragEnd fid px py s) = meme s"
proof -
  have len: "length (fields' (onDragEnd fid px py s)) = length (fields' s)"
    by (simp add: onDragEnd_def)
  have match: "\<forall>n<length (fields' s). getProp (fields' s ! n) ''id'' = fid \<longrightarrow>
        fields' (onDragEnd fid px py s) ! n = (fields' s ! n)(''x'' \<mapsto> px, ''y'' \<mapsto> py)"
    by (simp add: onDragEnd_def)
  have other: "\<forall>n<length (fields' s). getProp (fields' s ! n) ''id'' \<noteq> fid \<longrightarrow>
        fields' (onDragEnd fid px py s) ! n = fields' s ! n"
    by (simp add: onDragEnd_def)
  have attrs: "\<forall>n<length (fields' s). \<forall>k. k \<noteq> ''x'' \<longrightarrow> k \<noteq> ''y'' \<longrightarrow>
        (fields' (onDragEnd fid px py s) ! n) k = (fields' s ! n) k"
    by (simp add: onDragEnd_def)
  have only: "\<forall>n<length (fields' s). getProp (fields' s ! n) ''id'' = fid \<longrightarrow>
        (\<forall>m<length (fields' s). m \<noteq> n \<longrightarrow> getProp (fields' s ! m) ''id'' \<noteq> fid) \<longrightarrow>
        fields' (onDragEnd fid px py s)
          = (fields' s)[n := (fields' s ! n)(''x'' \<mapsto> px, ''y'' \<mapsto> py)]"
  proof (intro allI impI)
    fix n
    assume n: "n < length (fields' s)" and f: "getProp (fields' s ! n) ''id'' = fid"
      and u: "\<forall>m<length (fields' s). m \<noteq> n \<longrightarrow> getProp (fields' s ! m) ''id'' \<noteq> fid"
    show "fields' (onDragEnd fid px py s)
          = (fields' s)[n := (fields' s ! n)(''x'' \<mapsto> px, ''y'' \<mapsto> py)]"
    proof (rule nth_equalityI)
      show "length (fields' (onDragEnd fid px py s))
              = length ((fields' s)[n := (fields' s ! n)(''x'' \<mapsto> px, ''y'' \<mapsto> py)])"
        by (simp add: len)
    next
      fix m
      assume "m < length (fields' (onDragEnd fid px py s))"
      then have m: "m < length (fields' s)" by (simp add: len)
      show "fields' (onDragEnd fid px py s) ! m
              = (fields' s)[n := (fields' s ! n)(''x'' \<mapsto> px, ''y'' \<mapsto> py)] ! m"
      proof (cases "m = n")
        case True
        with n f match show ?thesis by simp
      next
        case False
        with m u have "getProp (fields' s ! m) ''id'' \<noteq> fid" by blast
        with m other False show ?thesis by simp
      qed
    qed
  qed
  have rest: "activeFieldId (onDragEnd fid px py s) = activeFieldId s \<and>
              meme (onDragEnd fid px py s) = meme s"
    by (simp add: onDragEnd_def)
  from len match other attrs only rest show ?thesis by blast
qed

lemma onDragEnd_frame_example:
  "getProp (fields' initialApp ! 0) ''id'' = JNum 1 \<and>
   fields' (onDragEnd (JNum 1) (JNum 10) (JNum 20) initialApp)
     = (fields' initialApp)[0 := (fields' initialApp ! 0)(''x'' \<mapsto> JNum 10, ''y'' \<mapsto> JNum 20)] \<and>
   fields' (onDragEnd (JNum 1) (JNum 10) (JNum 20) initialApp) ! 1 = fields' initialApp ! 1 \<and>
   (fields' (onDragEnd (JNum 1) (JNum 10) (JNum 20) initialApp) ! 0) ''text''
     = (fields' initialApp ! 0) ''text''"
proof -
  have l: "length (fields' initialApp) = 2"
    by (simp add: initialApp_def initialFields_def)
  have i0: "getProp (fields' initialApp ! 0) ''id'' = JNum 1"
    and i1: "getProp (fields' initialApp ! 1) ''id'' \<noteq> JNum 1"
    by (simp_all add: initialApp_def initialFields_def mkField_def getProp_def)
  have u: "\<forall>m<length (fields' initialApp). m \<noteq> 0 \<longrightarrow> getProp (fields' initialApp ! m) ''id'' \<noteq> JNum 1"
    using l i1 by (auto simp: less_Suc_eq numeral_2_eq_2)
  have t: "''text'' \<noteq> ''x''" "''text'' \<noteq> ''y''"
    by simp_all
  from onDragEnd_frame [of "JNum 1" "JNum 10" "JNum 20" initialApp] l i0 i1 u t
  show ?thesis by (simp add: numeral_2_eq_2)
qed

subsection \<open>The drag synchronizer\<close>

text \<open>
  C7: every rebuild first kills all behaviours attached before and then creates one per
  field, so that after any sequence of additions and removals there are as many live
  behaviours as fields and none is leaked. The code does not keep this. After two
  additions in one millisecond the third and the fourth field have one key; when the
  second field is then deleted, React leaves the element of the third in the document,
  still of class \<open>draggable-2\<close>. The rebuild that follows creates two instances for
  that selector and keeps the first only: there are three fields and four live
  instances, and instance 12 is named by no array. The next rebuild does not kill it,
  and leaves a second one behind. And when the effect runs with \<open>librariesLoaded\<close>
  true before the GSAP scripts have run, it throws, the \<open>App\<close> is unmounted, and
  there is no behaviour for the two fields.
\<close>

theorem drag_rebuild_leaks:
  "length (fields' (run [GsapDefined, ScriptsLoaded, AddField 1762041600000,
       AddField 1762041600000, Click 6, DeleteField (JNum 2)] mounted)) = 3 \<and>
   domStale (run [GsapDefined, ScriptsLoaded, AddField 1762041600000,
       AddField 1762041600000, Click 6, DeleteField (JNum 2)] mounted) = [2] \<and>
   draggableInstancesRef (run [GsapDefined, ScriptsLoaded, AddField 1762041600000,
       AddField 1762041600000, Click 6, DeleteField (JNum 2)] mounted)
     = [Some 9, Some 10, Some 11] \<and>
   liveDraggables (run [GsapDefined, ScriptsLoaded, AddField 1762041600000,
       AddField 1762041600000, Click 6, DeleteField (JNum 2)] mounted) = [9, 10, 11, 12] \<and>
   length (fields' (run [GsapDefined, ScriptsLoaded, AddField 1762041600000,
       AddField 1762041600000, Click 6, DeleteField (JNum 2),
       SelectMeme (JStr ''https://i.imgflip.com/30b1gx.jpg'')] mounted)) = 3 \<and>
   liveDraggables (run [GsapDefined, ScriptsLoaded, AddField 1762041600000,
       AddField 1762041600000, Click 6, DeleteField (JNum 2),
       SelectMeme (JStr ''https://i.imgflip.com/30b1gx.jpg'')] mounted)
     = [12, 13, 14, 15, 16] \<and>
   crashed (run [ScriptsLoaded] mounted) \<and>
   length (fields' (run [ScriptsLoaded] mounted)) = 2 \<and>
   liveDraggables (run [ScriptsLoaded] mounted) = []"
  by (simp add: machine_simps handleAddField_def handleDeleteField_def handleSelectMeme_def
      onClick_def INITIAL_IMAGE_URL_def)

subsection \<open>The script loader\<close>

lemma fst_loadScripts_Cons:
  "fst (loadScripts (u # urls) tags)
     = (if u \<in> set tags then Fulfilled # fst (loadScripts urls tags)
        else Pending # fst (loadScripts urls (tags @ [u])))"
  by (simp split: prod.splits)

lemma length_loadScripts: "length (fst (loadScripts urls tags)) = length urls"
  by (induction urls arbitrary: tags) (simp_all add: fst_loadScripts_Cons del: loadScripts.simps(2))

lemma loadScripts_nth:
  "n < length urls \<Longrightarrow>
   fst (loadScripts urls tags) ! n
     = (if urls ! n \<in> set tags \<or> urls ! n \<in> set (take n urls) then Fulfilled else Pending)"
proof (induction urls arbitrary: tags n)
  case Nil
  then show ?case by simp
next
  case (Cons u urls)
  show ?case
  proof (cases n)
    case 0
    then show ?thesis by (simp add: fst_loadScripts_Cons del: loadScripts.simps(2))
  next
    case (Suc m)
    with Cons.prems have m: "m < length urls" by simp
    show ?thesis
      using Cons.IH [OF m, of tags] Cons.IH [OF m, of "tags @ [u]"] Suc
      by (auto simp: fst_loadScripts_Cons simp del: loadScripts.simps(2))
  qed
qed

lemma promiseAll_cases:
  "promiseAll ps = Rejected \<longleftrightarrow> Rejected \<in> set ps"
  "promiseAll ps = Fulfilled \<longleftrightarrow> (\<forall>n<length ps. ps ! n = Fulfilled)"
  by (auto simp: promiseAll_def list_all_length in_set_conv_nth)

lemma settle_inv:
  assumes "length (promises l) = length (scripts l)"
    and "allSettled l = Pending \<and> \<not> loaded l \<and> console l = [] \<or>
         allSettled l = promiseAll (promises l) \<and> allSettled l \<noteq> Pending \<and>
         loaded l = (allSettled l = Fulfilled) \<and>
         length (console l) = (if allSettled l = Rejected then 1 else 0)"
  shows "loaderInv (settle err l)"
  using assms
  by (cases "promiseAll (promises l)") (auto simp: loaderInv_def settle_def)

lemma loaderInv_mount: "loaderInv (mountLoader urls tags ready)"
  unfolding mountLoader_def
  by (rule settle_inv) (simp_all add: length_loadScripts)


lemma settle_frame:
  "promises (settle err l) = promises l \<and> scripts (settle err l) = scripts l \<and>
   executed (settle err l) = executed l"
  by (cases "promiseAll (promises l)") (simp_all add: settle_def)

lemma rejected_update:
  assumes "Rejected \<in> set ps" and "ps ! n = Pending"
  shows "Rejected \<in> set (ps[n := v])"
proof -
  from assms(1) obtain i where i: "i < length ps" "ps ! i = Rejected"
    by (auto simp: in_set_conv_nth)
  with assms(2) have "i \<noteq> n" by auto
  with i have "i < length (ps[n := v])" "ps[n := v] ! i = Rejected" by simp_all
  then show ?thesis by (metis nth_mem)
qed

lemma loaderInv_step:
  assumes "loaderInv l"
  shows "loaderInv (loaderStep e l)"
proof -
  have inv: "length (promises l) = length (scripts l)" "allSettled l = promiseAll (promises l)"
    "loaded l = (allSettled l = Fulfilled)"
    "length (console l) = (if allSettled l = Rejected then 1 else 0)"
    using assms by (simp_all add: loaderInv_def)
  have upd: "loaderInv (settle err (l\<lparr> promises := (promises l)[n := v], executed := ex \<rparr>))"
    if n: "n < length (promises l)" "promises l ! n = Pending" for err n v ex
  proof (rule settle_inv)
    show "length (promises (l\<lparr> promises := (promises l)[n := v], executed := ex \<rparr>))
            = length (scripts (l\<lparr> promises := (promises l)[n := v], executed := ex \<rparr>))"
      using inv(1) by simp
  next
    let ?l' = "l\<lparr> promises := (promises l)[n := v], executed := ex \<rparr>"
    show "allSettled ?l' = Pending \<and> \<not> loaded ?l' \<and> console ?l' = [] \<or>
         allSettled ?l' = promiseAll (promises ?l') \<and> allSettled ?l' \<noteq> Pending \<and>
         loaded ?l' = (allSettled ?l' = Fulfilled) \<and>
         length (console ?l') = (if allSettled ?l' = Rejected then 1 else 0)"
    proof (cases "allSettled l")
      case Pending
      with inv show ?thesis by simp
    next
      case Fulfilled
      with inv(2) have "promiseAll (promises l) = Fulfilled" by simp
      then have "promises l ! n = Fulfilled"
        using n(1) by (simp add: promiseAll_cases)
      with n(2) show ?thesis by simp
    next
      case Rejected
      with inv(2) have "promiseAll (promises l) = Rejected" by simp
      then have "Rejected \<in> set (promises l)"
        by (simp add: promiseAll_cases)
      then have "Rejected \<in> set ((promises l)[n := v])"
        using n(2) by (rule rejected_update)
      then have "promiseAll ((promises l)[n := v]) = Rejected"
        by (simp add: promiseAll_cases)
      with Rejected inv show ?thesis by simp
    qed
  qed
  show ?thesis
  proof (cases e)
    case (ScriptOnLoad n)
    show ?thesis
    proof (cases "n < length (promises l) \<and> promises l ! n = Pending")
      case True
      then show ?thesis
        using upd [where n = n and err = "[]" and v = Fulfilled
              and ex = "executed l @ [scripts l ! n]"] ScriptOnLoad by simp
    next
      case False
      with assms ScriptOnLoad show ?thesis by auto
    qed
  next
    case (ScriptOnError n)
    show ?thesis
    proof (cases "n < length (promises l) \<and> promises l ! n = Pending")
      case True
      then show ?thesis
        using upd [where n = n and err = "''Script load error for '' @ scripts l ! n"
              and v = Rejected and ex = "executed l"] ScriptOnError by simp
    next
      case False
      with assms ScriptOnError show ?thesis by auto
    qed
  qed
qed

lemma runLoader_snoc: "runLoader (es @ [e]) l = loaderStep e (runLoader es l)"
  by (simp add: runLoader_def)

lemma loaderInv_run: "loaderInv l \<Longrightarrow> loaderInv (runLoader es l)"
  by (induction es rule: rev_induct) (simp_all add: runLoader_def loaderInv_step)

lemma loaderStep_rejected:
  "Rejected \<in> set (promises l) \<Longrightarrow> Rejected \<in> set (promises (loaderStep e l))"
  by (cases e) (simp_all add: settle_frame rejected_update)

lemma runLoader_rejected:
  "Rejected \<in> set (promises l) \<Longrightarrow> Rejected \<in> set (promises (runLoader es l))"
  by (induction es rule: rev_induct) (simp_all add: runLoader_snoc loaderStep_rejected, simp add: runLoader_def)

lemma loaderStep_fulfilled:
  "promises (loaderStep e l) ! n = Fulfilled \<Longrightarrow> n < length (promises l) \<Longrightarrow>
   promises l ! n = Fulfilled \<or> e = ScriptOnLoad n"
  by (cases e) (auto simp: settle_frame nth_list_update split: if_splits)

lemma loaderStep_length: "length (promises (loaderStep e l)) = length (promises l)"
  by (cases e) (simp_all add: settle_frame)

lemma runLoader_length: "length (promises (runLoader es l)) = length (promises l)"
  by (induction es rule: rev_induct) (simp_all add: runLoader_snoc loaderStep_length, simp add: runLoader_def)

lemma runLoader_fulfilled:
  "promises (runLoader es l) ! n = Fulfilled \<Longrightarrow> n < length (promises l) \<Longrightarrow>
   promises l ! n = Fulfilled \<or> ScriptOnLoad n \<in> set es"
proof (induction es rule: rev_induct)
  case Nil
  then show ?case by (simp add: runLoader_def)
next
  case (snoc e es)
  have "n < length (promises (runLoader es l))"
    using snoc.prems(2) by (simp add: runLoader_length)
  with snoc.prems(1) have "promises (runLoader es l) ! n = Fulfilled \<or> e = ScriptOnLoad n"
    unfolding runLoader_snoc by (rule loaderStep_fulfilled)
  with snoc.IH snoc.prems(2) show ?case by auto
qed

lemma first_occurrence:
  assumes "src \<in> set urls"
  obtains n where "n < length urls" and "urls ! n = src" and "src \<notin> set (take n urls)"
proof -
  let ?P = "\<lambda>n. n < length urls \<and> urls ! n = src"
  from assms have ex: "\<exists>n. ?P n" by (auto simp: in_set_conv_nth)
  define n where "n = (LEAST n. ?P n)"
  have p: "?P n" unfolding n_def using ex by (rule LeastI_ex)
  have least: "\<not> ?P m" if "m < n" for m
    using that unfolding n_def by (rule not_less_Least)
  have "src \<notin> set (take n urls)"
  proof
    assume "src \<in> set (take n urls)"
    then obtain m where "m < length (take n urls)" "take n urls ! m = src"
      by (auto simp: in_set_conv_nth)
    then have "m < n" "?P m" using p by simp_all
    with least show False by blast
  qed
  with p that show thesis by blast
qed

text \<open>
  C3: the flag becomes true only after every script has loaded, and once a load has
  failed it stays false for the rest of the life of the process. The code does not keep
  this, against its own documentation, by which the hook returns true if all scripts are
  loaded and false otherwise. \<open>loadScript\<close> resolves at once for a source whose
  element is in the document, loaded or not. So in a document that already holds the
  three script elements, none of which has loaded, the flag is true as soon as the
  effect has run. And after a run in which the second script has failed and the flag is
  false, the elements that run has created are still in the document: a second mount of
  the hook finds them and sets the flag, though no script has loaded.
\<close>

theorem useScriptLoader_tags_present:
  "loaded (mountLoader SCRIPT_URLS SCRIPT_URLS []) \<and>
   executed (mountLoader SCRIPT_URLS SCRIPT_URLS []) = [] \<and>
   \<not> loaded (runLoader [ScriptOnError 1] (mountLoader SCRIPT_URLS [] [])) \<and>
   executed (runLoader [ScriptOnError 1] (mountLoader SCRIPT_URLS [] [])) = [] \<and>
   loaded (mountLoader SCRIPT_URLS
             (scriptTags (runLoader [ScriptOnError 1] (mountLoader SCRIPT_URLS [] [])))
             (executed (runLoader [ScriptOnError 1] (mountLoader SCRIPT_URLS [] []))))"
  by (simp add: runLoader_def mountLoader_def SCRIPT_URLS_def settle_def promiseAll_def)

text \<open>
  What the hook does keep, in every state \<open>l\<close> it reaches after its effect: the flag
  is true only if every script either had its element in the document before the effect
  ran or has fired the load event of the element created for it. A load that fails while
  its promise is pending rejects that promise; and once a promise is rejected the flag
  is false, the console holds one line, and the flag stays false after every further
  sequence of events on this mount.
\<close>

lemma useScriptLoader_ready:
  assumes "l = runLoader es (mountLoader urls tags ready)"
  shows "(loaded l \<longrightarrow>
            (\<forall>src\<in>set urls. src \<in> set tags \<or>
                (\<exists>n<length urls. urls ! n = src \<and> ScriptOnLoad n \<in> set es))) \<and>
         (\<forall>n<length (promises l). promises l ! n = Pending \<longrightarrow>
            Rejected \<in> set (promises (loaderStep (ScriptOnError n) l))) \<and>
         (Rejected \<in> set (promises l) \<longrightarrow>
            \<not> loaded l \<and> length (console l) = 1 \<and> (\<forall>es'. \<not> loaded (runLoader es' l)))"
proof -
  let ?l0 = "mountLoader urls tags ready"
  have p0: "promises ?l0 = fst (loadScripts urls tags)"
    by (simp add: mountLoader_def settle_frame)
  have len0: "length (promises ?l0) = length urls"
    by (simp add: p0 length_loadScripts)
  have inv: "loaderInv l"
    unfolding assms using loaderInv_mount by (rule loaderInv_run)
  have len: "length (promises l) = length urls"
    unfolding assms by (simp add: runLoader_length len0)
  have a: "loaded l \<longrightarrow>
            (\<forall>src\<in>set urls. src \<in> set tags \<or>
                (\<exists>n<length urls. urls ! n = src \<and> ScriptOnLoad n \<in> set es))"
  proof (intro impI ballI)
    fix src
    assume ld: "loaded l" and src: "src \<in> set urls"
    from ld inv have "promiseAll (promises l) = Fulfilled"
      by (auto simp: loaderInv_def)
    then have all: "\<forall>n<length (promises l). promises l ! n = Fulfilled"
      by (simp add: promiseAll_cases)
    from src obtain n where n: "n < length urls" "urls ! n = src" "src \<notin> set (take n urls)"
      by (rule first_occurrence)
    from all n(1) len have "promises (runLoader es ?l0) ! n = Fulfilled"
      unfolding assms by simp
    then have "promises ?l0 ! n = Fulfilled \<or> ScriptOnLoad n \<in> set es"
      using n(1) len0 by (simp add: runLoader_fulfilled)
    then show "src \<in> set tags \<or> (\<exists>n<length urls. urls ! n = src \<and> ScriptOnLoad n \<in> set es)"
    proof
      assume "promises ?l0 ! n = Fulfilled"
      with n have "src \<in> set tags"
        by (simp add: p0 loadScripts_nth split: if_splits)
      then show ?thesis ..
    next
      assume "ScriptOnLoad n \<in> set es"
      with n show ?thesis by blast
    qed
  qed
  have b: "\<forall>n<length (promises l). promises l ! n = Pending \<longrightarrow>
            Rejected \<in> set (promises (loaderStep (ScriptOnError n) l))"
    by (simp add: settle_frame set_update_memI)
  have c: "Rejected \<in> set (promises l) \<longrightarrow>
            \<not> loaded l \<and> length (console l) = 1 \<and> (\<forall>es'. \<not> loaded (runLoader es' l))"
  proof
    assume r: "Rejected \<in> set (promises l)"
    have nl: "\<not> loaded l' \<and> length (console l') = 1"
      if "loaderInv l'" "Rejected \<in> set (promises l')" for l'
    proof -
      from that(2) have "promiseAll (promises l') = Rejected"
        by (simp add: promiseAll_cases)
      with that(1) show ?thesis by (auto simp: loaderInv_def)
    qed
    have "\<not> loaded (runLoader es' l)" for es'
      using nl [of "runLoader es' l"] inv r by (simp add: loaderInv_run runLoader_rejected)
    with nl [OF inv r]
    show "\<not> loaded l \<and> length (console l) = 1 \<and> (\<forall>es'. \<not> loaded (runLoader es' l))"
      by simp
  qed
  from a b c show ?thesis by blast
qed

lemma useScriptLoader_ready_example:
  "loaded (runLoader [ScriptOnLoad 0, ScriptOnLoad 2, ScriptOnLoad 1]
             (mountLoader SCRIPT_URLS [] [])) \<and>
   ScriptOnLoad 1 \<in> set [ScriptOnLoad 0, ScriptOnLoad 2, ScriptOnLoad 1] \<and>
   promises (runLoader [ScriptOnLoad 0] (mountLoader SCRIPT_URLS [] [])) ! 1 = Pending \<and>
   Rejected \<in> set (promises (runLoader [ScriptOnLoad 0, ScriptOnError 1]
                              (mountLoader SCRIPT_URLS [] []))) \<and>
   console (runLoader [ScriptOnLoad 0, ScriptOnError 1] (mountLoader SCRIPT_URLS [] []))
     = [''Failed to load scripts: Script load error for '' @ SCRIPT_URLS ! 1] \<and>
   \<not> loaded (runLoader [ScriptOnLoad 1, ScriptOnLoad 2]
               (runLoader [ScriptOnLoad 0, ScriptOnError 1] (mountLoader SCRIPT_URLS [] [])))"
proof -
  have a: "loaded (runLoader [ScriptOnLoad 0, ScriptOnLoad 2, ScriptOnLoad 1]
             (mountLoader SCRIPT_URLS [] []))"
    by (simp add: runLoader_def mountLoader_def SCRIPT_URLS_def settle_def promiseAll_def)
  have b: "promises (runLoader [ScriptOnLoad 0] (mountLoader SCRIPT_URLS [] [])) ! 1 = Pending"
    by (simp add: runLoader_def mountLoader_def SCRIPT_URLS_def settle_def promiseAll_def)
  have c: "Rejected \<in> set (promises (runLoader [ScriptOnLoad 0, ScriptOnError 1]
                              (mountLoader SCRIPT_URLS [] [])))"
    by (simp add: runLoader_def mountLoader_def SCRIPT_URLS_def settle_def promiseAll_def)
  have d: "console (runLoader [ScriptOnLoad 0, ScriptOnError 1] (mountLoader SCRIPT_URLS [] []))
     = [''Failed to load scripts: Script load error for '' @ SCRIPT_URLS ! 1]"
    by (simp add: runLoader_def mountLoader_def SCRIPT_URLS_def settle_def promiseAll_def)
  have "\<not> loaded (runLoader [ScriptOnLoad 1, ScriptOnLoad 2]
               (runLoader [ScriptOnLoad 0, ScriptOnError 1] (mountLoader SCRIPT_URLS [] [])))"
    using c useScriptLoader_ready [OF refl, of "[ScriptOnLoad 0, ScriptOnError 1]" SCRIPT_URLS "[]" "[]"]
    by blast
  with a b c d show ?thesis by simp
qed

subsection \<open>Exporting the image\<close>

text \<open>
  C4 (as stated, refuted): in every state the export would first clear the selection
  and then capture and download. When \<open>window.html2canvas\<close> is not there, the handler
  logs an error and returns: the first field stays selected and no timer is started, so
  nothing is captured or downloaded.
\<close>

theorem export_without_html2canvas:
  "activeFieldId (onClick (JNum 1) initialApp) = JNum 1 \<and>
   handleDownloadMeme False (onClick (JNum 1) initialApp)
     = (onClick (JNum 1) initialApp, [ConsoleError ''html2canvas not loaded''], None)"
  by (simp add: handleDownloadMeme_def onClick_def)

text \<open>
  C4 (amended): when \<open>window.html2canvas\<close> is there, the handler clears the selection,
  captures nothing itself and starts a timer of 150 milliseconds; without it, it logs an
  error and changes nothing. When the timer fires and the composition element is
  mounted, \<open>html2canvas\<close> is called with cross-origin loading on and a null, that is
  transparent, background; a capture that succeeds is followed by one click on a link
  whose download name is \<open>meme-\<close>, the decimal \<open>Date.now()\<close> and \<open>.png\<close>, and a
  capture that fails by one line on the error console and no download. When the element
  is not mounted the callback does nothing. A download happens in no other case.
\<close>

theorem handleDownloadMeme_export:
  "handleDownloadMeme True s = (s\<lparr> activeFieldId := JNull \<rparr>, [], Some 150) \<and>
   handleDownloadMeme False s = (s, [ConsoleError ''html2canvas not loaded''], None) \<and>
   downloadTimeout True (Inr uri) now
     = [Html2canvas \<lparr> useCORS = True, backgroundColor = JNull, logging = False \<rparr>,
        LinkClick (''meme-'' @ numberToString now @ ''.png'') uri] \<and>
   downloadTimeout True (Inl err) now
     = [Html2canvas \<lparr> useCORS = True, backgroundColor = JNull, logging = False \<rparr>,
        ConsoleError (''Canvas capture error: '' @ err)] \<and>
   downloadTimeout False capture now = [] \<and>
   (\<forall>name href. LinkClick name href \<in> set (downloadTimeout hasRef capture now) \<longrightarrow>
      hasRef \<and> capture = Inr href \<and> name = ''meme-'' @ numberToString now @ ''.png'')"
proof -
  have a: "handleDownloadMeme True s = (s\<lparr> activeFieldId := JNull \<rparr>, [], Some 150)"
    and b: "handleDownloadMeme False s = (s, [ConsoleError ''html2canvas not loaded''], None)"
    by (simp_all add: handleDownloadMeme_def)
  have c: "downloadTimeout True (Inr uri) now
     = [Html2canvas \<lparr> useCORS = True, backgroundColor = JNull, logging = False \<rparr>,
        LinkClick (''meme-'' @ numberToString now @ ''.png'') uri]"
    and d: "downloadTimeout True (Inl err) now
     = [Html2canvas \<lparr> useCORS = True, backgroundColor = JNull, logging = False \<rparr>,
        ConsoleError (''Canvas capture error: '' @ err)]"
    and e: "downloadTimeout False capture now = []"
    by (simp_all add: downloadTimeout_def)
  have f: "\<forall>name href. LinkClick name href \<in> set (downloadTimeout hasRef capture now) \<longrightarrow>
      hasRef \<and> capture = Inr href \<and> name = ''meme-'' @ numberToString now @ ''.png''"
    by (cases hasRef; cases capture) (simp_all add: downloadTimeout_def)
  from a b c d e f show ?thesis by blast
qed

theorem handleDownloadMeme_export_witness:
  "activeFieldId (fst (handleDownloadMeme True (onClick (JNum 1) initialApp))) = JNull \<and>
   LinkClick ''meme-1762041600000.png'' ''data:image/png;base64,iVBORw0KGgo=''
     \<in> set (downloadTimeout True (Inr ''data:image/png;base64,iVBORw0KGgo='') 1762041600000)"
proof -
  have n: "numberToString 1762041600000 = ''1762041600000''"
    by (simp add: numberToString_def digitChar_def showNat.simps)
  note t = handleDownloadMeme_export [of "onClick (JNum 1) initialApp"
      "''data:image/png;base64,iVBORw0KGgo=''" 1762041600000 "''SecurityError''"
      "Inr ''data:image/png;base64,iVBORw0KGgo=''" True]
  from t have a: "handleDownloadMeme True (onClick (JNum 1) initialApp)
                    = ((onClick (JNum 1) initialApp)\<lparr> activeFieldId := JNull \<rparr>, [], Some 150)"
    by (rule conjunct1)
  from t have c: "downloadTimeout True (Inr ''data:image/png;base64,iVBORw0KGgo='') 1762041600000
     = [Html2canvas \<lparr> useCORS = True, backgroundColor = JNull, logging = False \<rparr>,
        LinkClick (''meme-'' @ numberToString 1762041600000 @ ''.png'')
          ''data:image/png;base64,iVBORw0KGgo='']"
    by blast
  show ?thesis
    unfolding a c n by simp
qed

end
